theory Spec2Isabelle
  imports Main "HOL-Library.Multiset"
begin

section \<open>Honeywell Lyric integration: \<^verbatim>\<open>homeassistant/components/lyric/__init__.py\<close>\<close>

subsection \<open>Constants, errors and values\<close>

text \<open>
  The names imported from \<^verbatim>\<open>.const\<close> and from \<^verbatim>\<open>homeassistant.const\<close> are not part of
  the source at hand. Every operation takes them as a parameter \<open>k\<close>, so each result
  holds for whatever strings those modules bind.
\<close>

record lyric_const =
  DATA_LYRIC_CLIENT :: string
  DOMAIN :: string
  CONF_CLIENT_ID :: string
  CONF_CLIENT_SECRET :: string
  CONF_LYRIC_CONFIG_FILE :: string
  SERVICE_HOLD_TIME :: string
  CONF_TOKEN :: string

text \<open>
  Exceptions are values. \<open>KeyError\<close> is what a subscript or a \<^verbatim>\<open>del\<close> on a missing
  dictionary key raises, \<open>NotImplementedError\<close> is raised by the entity's default hook,
  and \<open>Raised\<close> stands for any exception coming out of the host or of the vendor SDK.
\<close>

datatype error = KeyError string | NotImplementedError | Raised string

text \<open>What a config entry stores under a key: a string, or a nested mapping (the token).\<close>

datatype pyval = Str string | Dict "(string \<times> pyval) list"

definition LYRIC_COMPONENTS :: "string list" where
  "LYRIC_COMPONENTS = [''climate'', ''sensor'']"

subsection \<open>Vendor SDK objects\<close>

text \<open>
  A thermostat and a location of the vendor SDK, with the attributes this module reads:
  \<^verbatim>\<open>device.macID\<close>, \<^verbatim>\<open>device.name\<close>, \<^verbatim>\<open>device.id\<close>, \<^verbatim>\<open>location.name\<close> and
  \<^verbatim>\<open>location.thermostats\<close>. The vendor client exposes \<^verbatim>\<open>locations\<close>.
\<close>

record thermostat =
  macID :: string
  thermostat_name :: string
  thermostat_id :: string

record location =
  name :: string
  thermostats :: "thermostat list"

record Lyric =
  locations :: "location list"

subsection \<open>The vendor session wrapper\<close>

text \<open>
  \<^verbatim>\<open>class LyricClient\<close>: the attribute \<^verbatim>\<open>_location\<close> is written \<open>p_location\<close> (a name
  cannot start with an underscore here).
\<close>

record LyricClient =
  lyric :: Lyric
  p_location :: "string list"

definition LyricClient_init :: "Lyric \<Rightarrow> LyricClient" where
  "LyricClient_init l = \<lparr>lyric = l, p_location = map name (locations l)\<rparr>"

text \<open>
  \<^verbatim>\<open>devices\<close> is a generator function. Calling it runs none of its body and returns a
  generator object in state \<open>Created\<close>. Each \<^verbatim>\<open>next\<close> resumes the body up to the next
  \<^verbatim>\<open>yield\<close>: a generator suspended inside the two loops holds the locations not yet
  visited, the current location and the thermostats of it not yet visited.
  \<open>None\<close> is \<^verbatim>\<open>StopIteration\<close>.
\<close>

datatype devices_gen =
  Created
  | Suspended "location list" location "thermostat list"
  | Finished

type_synonym devices_step = "(location \<times> thermostat) option \<times> devices_gen"

text \<open>Resuming inside the inner loop; an exhausted inner loop goes on with the outer one.\<close>

fun devices_resume :: "location list \<Rightarrow> location \<Rightarrow> thermostat list \<Rightarrow> devices_step" where
  "devices_resume ls l (d # ds) = (Some (l, d), Suspended ls l ds)"
| "devices_resume [] l [] = (None, Finished)"
| "devices_resume (l' # ls) l [] = devices_resume ls l' (thermostats l')"

text \<open>Entering the outer loop over \<^verbatim>\<open>self.lyric.locations\<close>.\<close>

fun devices_enter :: "location list \<Rightarrow> devices_step" where
  "devices_enter [] = (None, Finished)"
| "devices_enter (l # ls) = devices_resume ls l (thermostats l)"

text \<open>
  One \<^verbatim>\<open>next\<close> on the generator. The wrapper \<open>self\<close> is the state the body runs in; it is
  passed through and returned, so that a write to it would show.
\<close>

definition devices_next :: "devices_gen \<Rightarrow> LyricClient \<Rightarrow> devices_step \<times> LyricClient" where
  "devices_next g self =
     (case g of
        Created \<Rightarrow> (devices_enter (locations (lyric self)), self)
      | Suspended ls l ds \<Rightarrow> (devices_resume ls l ds, self)
      | Finished \<Rightarrow> ((None, Finished), self))"

definition devices :: "LyricClient \<Rightarrow> devices_gen \<times> LyricClient" where
  "devices self = (Created, self)"

text \<open>What is left for a generator to yield, counting one more for each loop entry.\<close>

fun pending :: "devices_gen \<times> LyricClient \<Rightarrow> nat" where
  "pending (Created, self) = Suc (sum_list (map (\<lambda>l. Suc (length (thermostats l))) (locations (lyric self))))"
| "pending (Suspended ls l ds, self) = length ds + sum_list (map (\<lambda>l. Suc (length (thermostats l))) ls)"
| "pending (Finished, self) = 0"

text \<open>
  \<^verbatim>\<open>list(gen)\<close>: calling \<^verbatim>\<open>next\<close> until \<^verbatim>\<open>StopIteration\<close>, collecting what is yielded.
\<close>

function devices_list :: "devices_gen \<Rightarrow> LyricClient \<Rightarrow> (location \<times> thermostat) list \<times> LyricClient" where
  "devices_list g self =
     (case devices_next g self of
        ((None, g'), self') \<Rightarrow> ([], self')
      | ((Some p, g'), self') \<Rightarrow>
          (case devices_list g' self' of (ps, self'') \<Rightarrow> (p # ps, self'')))"
  by pat_completeness auto
termination
proof -
  have resume: "devices_resume ls l ds = (Some q, g1) \<Longrightarrow>
      pending (g1, s) < length ds + sum_list (map (\<lambda>l. Suc (length (thermostats l))) ls)"
    for ls l ds q g1 s
  proof (induction ls l ds rule: devices_resume.induct)
    case (1 ls l d ds)
    then show ?case by auto
  next
    case (2 l)
    then show ?case by simp
  next
    case (3 l' ls l)
    then show ?case by fastforce
  qed
  have step: "pending (g', self') < pending (g, self)"
    if n: "devices_next g self = ((Some p, g'), self')" for g self p g' self'
  proof (cases g)
    case Created
    show ?thesis
    proof (cases "locations (lyric self)")
      case Nil
      with Created n show ?thesis by (simp add: devices_next_def)
    next
      case (Cons l ls)
      with Created n
      have "devices_resume ls l (thermostats l) = (Some p, g')" and "self' = self"
        by (simp_all add: devices_next_def)
      with resume [of ls l "thermostats l" p g' self] Created Cons
      show ?thesis by simp
    qed
  next
    case (Suspended ls l ds)
    with n have "devices_resume ls l ds = (Some p, g')" and "self' = self"
      by (simp_all add: devices_next_def)
    with resume [of ls l ds p g' self] Suspended show ?thesis by simp
  next
    case Finished
    with n show ?thesis by (simp add: devices_next_def)
  qed
  show ?thesis
    by (relation "measure pending") (auto dest: step [OF sym])
qed

declare devices_list.simps [simp del]

text \<open>A consumer enumerating one call of \<^verbatim>\<open>devices\<close>: \<^verbatim>\<open>list(self.devices())\<close>.\<close>

definition list_devices :: "LyricClient \<Rightarrow> (location \<times> thermostat) list \<times> LyricClient" where
  "list_devices self = (case devices self of (g, self') \<Rightarrow> devices_list g self')"

text \<open>
  The specification's wording of the result, to compare the generator with: the pairs
  (location, thermostat) for every location known to the client and every thermostat
  at that location.
\<close>

definition location_device_pairs :: "location list \<Rightarrow> (location \<times> thermostat) list" where
  "location_device_pairs ls = concat (map (\<lambda>l. map (Pair l) (thermostats l)) ls)"

subsection \<open>The host\<close>

text \<open>
  A config entry: \<^verbatim>\<open>entry.data\<close> is \<open>entry_data\<close>. The OAuth2 implementation object
  carries what its constructor is given; \<^verbatim>\<open>token\<close> and \<^verbatim>\<open>token_cache_file\<close> are the
  attributes that entry setup assigns, absent before.
\<close>

record config_entry =
  entry_id :: string
  entry_data :: "string \<rightharpoonup> pyval"

record LocalOAuth2Implementation =
  impl_domain :: string
  client_id :: string
  client_secret :: string
  authorize_url :: string
  token_url :: string
  token :: "pyval option"
  token_cache_file :: "string option"

definition LocalOAuth2Implementation_init ::
  "string \<Rightarrow> string \<Rightarrow> string \<Rightarrow> string \<Rightarrow> string \<Rightarrow> LocalOAuth2Implementation" where
  "LocalOAuth2Implementation_init d cid secret auth tok =
     \<lparr>impl_domain = d, client_id = cid, client_secret = secret, authorize_url = auth,
      token_url = tok, token = None, token_cache_file = None\<rparr>"

text \<open>The coroutines this module hands to the event loop.\<close>

datatype coroutine =
  async_forward_entry_setup config_entry string
  | async_forward_entry_unload config_entry string

fun component :: "coroutine \<Rightarrow> string" where
  "component (async_forward_entry_setup e c) = c"
| "component (async_forward_entry_unload e c) = c"

text \<open>
  The part of the host object \<^verbatim>\<open>hass\<close> that this module touches: \<^verbatim>\<open>hass.data\<close> (the
  shared integration state, from a domain to a mapping holding the wrapper), the OAuth2
  implementations registered, the service registry as (domain, service) pairs, and the
  coroutines handed to the event loop so far, in order.
\<close>

record HomeAssistant =
  data :: "string \<rightharpoonup> (string \<rightharpoonup> LyricClient)"
  implementations :: "LocalOAuth2Implementation list"
  services :: "(string \<times> string) set"
  scheduled :: "coroutine list"

text \<open>
  What the module calls and does not define, taken as a parameter \<open>h\<close>: the host's
  resolution of an entry's OAuth2 implementation, \<^verbatim>\<open>hass.config.path\<close>, the vendor
  client's constructor, and the outcome of awaiting a forwarded coroutine (an exception
  or the value returned). What a sub-platform does to the host while it unloads is its
  own business and is not part of this state.
\<close>

record host =
  async_get_config_entry_implementation ::
    "HomeAssistant \<Rightarrow> config_entry \<Rightarrow> error + LocalOAuth2Implementation"
  config_path :: "string \<Rightarrow> string"
  Lyric_init :: "string \<Rightarrow> string \<Rightarrow> string \<Rightarrow> pyval \<Rightarrow> string \<Rightarrow> error + Lyric"
  await :: "coroutine \<Rightarrow> error + bool"

text \<open>
  Modelled from the spec: the host's \<^verbatim>\<open>async_register_implementation\<close>, which is missing
  from the source; it "registers an OAuth2 local-implementation descriptor".
\<close>

definition async_register_implementation ::
  "HomeAssistant \<Rightarrow> LocalOAuth2Implementation \<Rightarrow> HomeAssistant" where
  "async_register_implementation hass impl = hass\<lparr>implementations := implementations hass @ [impl]\<rparr>"

text \<open>
  Modelled from the spec: the host's \<^verbatim>\<open>config_entries.async_update_entry\<close>, which is
  missing from the source; the entry is "mutated to backfill an implementation marker".
\<close>

definition async_update_entry :: "config_entry \<Rightarrow> (string \<rightharpoonup> pyval) \<Rightarrow> config_entry" where
  "async_update_entry entry d = entry\<lparr>entry_data := d\<rparr>"

text \<open>
  Modelled from the spec: the host's \<^verbatim>\<open>async_create_task\<close>, which is missing from the
  source; it schedules the coroutine "without blocking on completion".
\<close>

definition async_create_task :: "HomeAssistant \<Rightarrow> coroutine \<Rightarrow> HomeAssistant" where
  "async_create_task hass c = hass\<lparr>scheduled := scheduled hass @ [c]\<rparr>"

text \<open>
  Modelled from the spec: the host's \<^verbatim>\<open>services.async_remove\<close>, which is missing from
  the source; it "removes a host-level hold-time service registration".
\<close>

definition services_async_remove :: "HomeAssistant \<Rightarrow> string \<Rightarrow> string \<Rightarrow> HomeAssistant" where
  "services_async_remove hass d s = hass\<lparr>services := services hass - {(d, s)}\<rparr>"

text \<open>
  \<^verbatim>\<open>asyncio.gather\<close> without \<^verbatim>\<open>return_exceptions\<close>: all results in order, or an exception
  as soon as one of the awaitables raises. Which exception wins when several raise
  depends on the schedule; the model takes the first in the order given.
\<close>

fun gather :: "(coroutine \<Rightarrow> error + bool) \<Rightarrow> coroutine list \<Rightarrow> error + bool list" where
  "gather run [] = Inr []"
| "gather run (c # cs) =
     (case run c of
        Inl x \<Rightarrow> Inl x
      | Inr v \<Rightarrow> (case gather run cs of Inl x \<Rightarrow> Inl x | Inr vs \<Rightarrow> Inr (v # vs)))"

subsection \<open>Integration setup\<close>

definition async_setup ::
  "lyric_const \<Rightarrow> HomeAssistant \<Rightarrow> (string \<rightharpoonup> (string \<rightharpoonup> string)) \<Rightarrow> (error + bool) \<times> HomeAssistant" where
  "async_setup k hass config =
     (let hass1 = hass\<lparr>data := (data hass)(DOMAIN k \<mapsto> Map.empty)\<rparr> in
      case config (DOMAIN k) of
        None \<Rightarrow> (Inr True, hass1)
      | Some conf \<Rightarrow>
          (case conf (CONF_CLIENT_ID k) of
             None \<Rightarrow> (Inl (KeyError (CONF_CLIENT_ID k)), hass1)
           | Some cid \<Rightarrow>
               (case conf (CONF_CLIENT_SECRET k) of
                  None \<Rightarrow> (Inl (KeyError (CONF_CLIENT_SECRET k)), hass1)
                | Some secret \<Rightarrow>
                    (Inr True,
                     async_register_implementation hass1
                       (LocalOAuth2Implementation_init (DOMAIN k) cid secret
                          ''https://api.honeywell.com/oauth2/authorize''
                          ''https://api.honeywell.com/oauth2/token'')))))"

subsection \<open>Config-entry setup\<close>

text \<open>
  The entry is an object that the host updates in place, so the entry as it is
  afterwards is part of the result. An exception leaves what was done before it.
\<close>

definition async_setup_entry ::
  "lyric_const \<Rightarrow> host \<Rightarrow> HomeAssistant \<Rightarrow> config_entry \<Rightarrow>
     (error + bool) \<times> HomeAssistant \<times> config_entry" where
  "async_setup_entry k h hass entry =
     (let entry1 =
            (if entry_data entry ''auth_implementation'' = None
             then async_update_entry entry
                    ((entry_data entry)(''auth_implementation'' \<mapsto> Str (DOMAIN k)))
             else entry)
      in
      case async_get_config_entry_implementation h hass entry1 of
        Inl x \<Rightarrow> (Inl x, hass, entry1)
      | Inr impl \<Rightarrow>
          (case entry_data entry1 (CONF_TOKEN k) of
             None \<Rightarrow> (Inl (KeyError (CONF_TOKEN k)), hass, entry1)
           | Some tok \<Rightarrow>
               (let implementation =
                      impl\<lparr>token := Some tok,
                           token_cache_file := Some (config_path h (CONF_LYRIC_CONFIG_FILE k))\<rparr>
                in
                case Lyric_init h ''Home Assistant'' (client_id implementation)
                       (client_secret implementation) tok
                       (config_path h (CONF_LYRIC_CONFIG_FILE k)) of
                  Inl x \<Rightarrow> (Inl x, hass, entry1)
                | Inr l \<Rightarrow>
                    (let d = (case data hass (DOMAIN k) of None \<Rightarrow> Map.empty | Some d \<Rightarrow> d);
                         hass1 = hass\<lparr>data := (data hass)(DOMAIN k \<mapsto>
                                   d(DATA_LYRIC_CLIENT k \<mapsto> LyricClient_init l))\<rparr>;
                         hass2 = foldl (\<lambda>s c. async_create_task s (async_forward_entry_setup entry1 c))
                                   hass1 LYRIC_COMPONENTS
                     in (Inr True, hass2, entry1)))))"

subsection \<open>Config-entry unload\<close>

definition async_unload_entry ::
  "lyric_const \<Rightarrow> host \<Rightarrow> HomeAssistant \<Rightarrow> config_entry \<Rightarrow> (error + bool) \<times> HomeAssistant" where
  "async_unload_entry k h hass entry =
     (let coros = map (async_forward_entry_unload entry) LYRIC_COMPONENTS;
          hass1 = hass\<lparr>scheduled := scheduled hass @ coros\<rparr>
      in
      case gather (await h) coros of
        Inl x \<Rightarrow> (Inl x, hass1)
      | Inr results \<Rightarrow>
          (let hass2 = services_async_remove hass1 (DOMAIN k) (SERVICE_HOLD_TIME k) in
           case data hass2 (DOMAIN k) of
             None \<Rightarrow> (Inl (KeyError (DOMAIN k)), hass2)
           | Some d \<Rightarrow> (Inr True, hass2\<lparr>data := (data hass2)(DOMAIN k := None)\<rparr>)))"

subsection \<open>Entities\<close>

text \<open>
  \<^verbatim>\<open>class LyricEntity\<close>, with \<^verbatim>\<open>_unique_id\<close> written \<open>p_unique_id\<close> and so on.
\<close>

record LyricEntity =
  p_unique_id :: string
  p_name :: string
  p_icon :: string
  p_device_class :: string
  p_available :: bool
  device :: thermostat
  location :: location

definition LyricEntity_init ::
  "thermostat \<Rightarrow> location \<Rightarrow> string \<Rightarrow> string \<Rightarrow> string \<Rightarrow> string \<Rightarrow> LyricEntity" where
  "LyricEntity_init dev loc uid nm ic dc =
     \<lparr>p_unique_id = uid, p_name = nm, p_icon = ic, p_device_class = dc,
      p_available = False, device = dev, location = loc\<rparr>"

definition available :: "LyricEntity \<Rightarrow> bool" where
  "available self = p_available self"

text \<open>
  The update hook is a method that a subclass may override: what runs is a parameter
  \<open>hook\<close>, from the entity to an outcome and the entity as the hook leaves it.
  \<open>p_lyric_update\<close> is the hook of the base class.
\<close>

type_synonym lyric_update = "LyricEntity \<Rightarrow> (error + unit) \<times> LyricEntity"

definition p_lyric_update :: lyric_update where
  "p_lyric_update self = (Inl NotImplementedError, self)"

definition async_update :: "lyric_update \<Rightarrow> LyricEntity \<Rightarrow> (error + unit) \<times> LyricEntity" where
  "async_update hook self =
     (case hook self of
        (Inl x, self') \<Rightarrow> (Inl x, self')
      | (Inr u, self') \<Rightarrow> (Inr (), self'\<lparr>p_available := True\<rparr>))"

subsection \<open>A concrete installation\<close>

text \<open>
  Values on which the results below are evaluated: the integration's constants, a vendor
  account with two locations holding two and three thermostats, and a host with the
  hold-time service registered.
\<close>

definition k0 :: lyric_const where
  "k0 = \<lparr>DATA_LYRIC_CLIENT = ''lyric_client'', DOMAIN = ''lyric'', CONF_CLIENT_ID = ''client_id'',
         CONF_CLIENT_SECRET = ''client_secret'', CONF_LYRIC_CONFIG_FILE = ''lyric.conf'',
         SERVICE_HOLD_TIME = ''set_hold_time'', CONF_TOKEN = ''token''\<rparr>"

definition t1 :: thermostat where
  "t1 = \<lparr>macID = ''00D02D000001'', thermostat_name = ''Hall'', thermostat_id = ''TCC-1''\<rparr>"

definition t2 :: thermostat where
  "t2 = \<lparr>macID = ''00D02D000002'', thermostat_name = ''Bedroom'', thermostat_id = ''TCC-2''\<rparr>"

definition t3 :: thermostat where
  "t3 = \<lparr>macID = ''00D02D000003'', thermostat_name = ''Office'', thermostat_id = ''TCC-3''\<rparr>"

definition home :: location where
  "home = \<lparr>name = ''Home'', thermostats = [t1, t2]\<rparr>"

definition cabin :: location where
  "cabin = \<lparr>name = ''Cabin'', thermostats = [t3, t1, t2]\<rparr>"

definition client0 :: LyricClient where
  "client0 = LyricClient_init \<lparr>locations = [home, cabin]\<rparr>"

definition hass0 :: HomeAssistant where
  "hass0 = \<lparr>data = Map.empty, implementations = [],
            services = {(''lyric'', ''set_hold_time'')}, scheduled = []\<rparr>"

text \<open>
  A host on which everything succeeds, one on which unloading the sensor platform raises,
  one on which it returns \<open>False\<close> (the platform reports that it could not unload),
  two config entries as the OAuth flow leaves them (a token, no implementation marker),
  and a host state with the wrapper stored.
\<close>

definition h0 :: host where
  "h0 = \<lparr>async_get_config_entry_implementation =
            (\<lambda>hass e. Inr (LocalOAuth2Implementation_init ''lyric'' ''id-1'' ''secret-1''
               ''https://api.honeywell.com/oauth2/authorize''
               ''https://api.honeywell.com/oauth2/token'')),
         config_path = (\<lambda>f. ''/config/'' @ f),
         Lyric_init = (\<lambda>app cid secret tok file. Inr \<lparr>locations = [home, cabin]\<rparr>),
         await = (\<lambda>c. Inr True)\<rparr>"

definition h_sensor_fails :: host where
  "h_sensor_fails =
     h0\<lparr>await := (\<lambda>c. if component c = ''sensor'' then Inl (Raised ''sensor unload'')
                       else Inr True)\<rparr>"

definition h_sensor_returns_false :: host where
  "h_sensor_returns_false =
     h0\<lparr>await := (\<lambda>c. if component c = ''sensor'' then Inr False else Inr True)\<rparr>"

definition entry_a :: config_entry where
  "entry_a = \<lparr>entry_id = ''a'',
              entry_data = [''token'' \<mapsto> Dict [(''access_token'', Str ''x'')]]\<rparr>"

definition entry_b :: config_entry where
  "entry_b = \<lparr>entry_id = ''b'',
              entry_data = [''token'' \<mapsto> Dict [(''access_token'', Str ''y'')]]\<rparr>"

definition hass_loaded :: HomeAssistant where
  "hass_loaded = hass0\<lparr>data := [''lyric'' \<mapsto> [''lyric_client'' \<mapsto> client0]]\<rparr>"

text \<open>
  A run of the module with two entries: integration setup, setup of the first entry,
  setup of the second, unload of the first.
\<close>

definition after_a :: "(error + bool) \<times> HomeAssistant \<times> config_entry" where
  "after_a = async_setup_entry k0 h0 (snd (async_setup k0 hass0 Map.empty)) entry_a"

definition after_b :: "(error + bool) \<times> HomeAssistant \<times> config_entry" where
  "after_b = async_setup_entry k0 h0 (fst (snd after_a)) entry_b"

definition after_unload_a :: "(error + bool) \<times> HomeAssistant" where
  "after_unload_a = async_unload_entry k0 h0 (fst (snd after_b)) (snd (snd after_a))"

text \<open>An entity of the base class, and a hook that an override could be.\<close>

definition entity0 :: LyricEntity where
  "entity0 = LyricEntity_init t1 home ''00D02D000001_temperature'' ''Hall Temperature''
               ''mdi:thermometer'' ''temperature''"

definition hook_ok :: lyric_update where
  "hook_ok self = (Inr (), self)"

section \<open>The device listing\<close>

text \<open>Two generator states that take the same step enumerate the same.\<close>

lemma devices_list_same_step:
  "devices_next g s = devices_next g' s \<Longrightarrow> devices_list g s = devices_list g' s"
  by (simp add: devices_list.simps [of g] devices_list.simps [of g'])

lemma devices_list_yield:
  "devices_list (Suspended ls l (d # ds)) s =
     (case devices_list (Suspended ls l ds) s of (ps, s') \<Rightarrow> ((l, d) # ps, s'))"
  by (simp add: devices_list.simps [of "Suspended ls l (d # ds)"] devices_next_def)

text \<open>
  A suspended generator yields the rest of the current location, then every later
  location in full: induction on the locations left, and inside on the thermostats left.
\<close>

lemma devices_list_Suspended:
  "devices_list (Suspended ls l ds) s = (map (Pair l) ds @ location_device_pairs ls, s)"
proof (induction ls arbitrary: l ds)
  case Nil
  show ?case
  proof (induction ds)
    case Nil
    show ?case
      by (simp add: devices_list.simps [of "Suspended [] l []"] devices_next_def
          location_device_pairs_def)
  next
    case (Cons d ds)
    then show ?case by (simp add: devices_list_yield)
  qed
next
  case (Cons l' ls)
  show ?case
  proof (induction ds)
    case Nil
    have "devices_list (Suspended (l' # ls) l []) s
          = devices_list (Suspended ls l' (thermostats l')) s"
      by (rule devices_list_same_step) (simp add: devices_next_def)
    with Cons.IH [of l' "thermostats l'"] show ?case
      by (simp add: location_device_pairs_def)
  next
    case (Cons d ds)
    then show ?case by (simp add: devices_list_yield)
  qed
qed

lemma devices_list_Created:
  "devices_list Created s = (location_device_pairs (locations (lyric s)), s)"
proof (cases "locations (lyric s)")
  case Nil
  then show ?thesis
    by (simp add: devices_list.simps [of Created] devices_next_def location_device_pairs_def)
next
  case (Cons l ls)
  then have "devices_list Created s = devices_list (Suspended ls l (thermostats l)) s"
    by (intro devices_list_same_step) (simp add: devices_next_def)
  with Cons show ?thesis
    by (simp add: devices_list_Suspended location_device_pairs_def)
qed

lemma list_devices_eq:
  "list_devices s = (location_device_pairs (locations (lyric s)), s)"
  by (simp add: list_devices_def devices_def devices_list_Created)

lemma devices_next_self: "snd (devices_next g self) = self"
  by (simp add: devices_next_def split: devices_gen.splits)

text \<open>
  C2: enumerating \<^verbatim>\<open>devices()\<close> gives exactly the pairs (location, thermostat), for every
  location of the vendor client and every thermostat at that location, each thermostat
  with its own location. With no location the sequence is empty; with two locations of
  two and three thermostats it has five pairs.
\<close>

theorem devices_yields_location_thermostat_pairs:
  "fst (list_devices c) = location_device_pairs (locations (lyric c))
   \<and> set (fst (list_devices c))
       = {(l, d). l \<in> set (locations (lyric c)) \<and> d \<in> set (thermostats l)}
   \<and> (locations (lyric c) = [] \<longrightarrow> fst (list_devices c) = [])
   \<and> (\<forall>l1 l2. locations (lyric c) = [l1, l2] \<and> length (thermostats l1) = 2
          \<and> length (thermostats l2) = 3
        \<longrightarrow> length (fst (list_devices c)) = 5
          \<and> fst (list_devices c)
              = map (Pair l1) (thermostats l1) @ map (Pair l2) (thermostats l2))"
proof -
  have "set (location_device_pairs ls) = {(l, d). l \<in> set ls \<and> d \<in> set (thermostats l)}" for ls
    by (auto simp: location_device_pairs_def)
  then show ?thesis
    by (simp add: list_devices_eq) (simp add: location_device_pairs_def)
qed

theorem devices_yields_location_thermostat_pairs_witness:
  "locations (lyric client0) = [home, cabin] \<and> length (thermostats home) = 2
   \<and> length (thermostats cabin) = 3
   \<and> length (fst (list_devices client0)) = 5
   \<and> fst (list_devices client0) = [(home, t1), (home, t2), (cabin, t3), (cabin, t1), (cabin, t2)]"
  using devices_yields_location_thermostat_pairs [of client0]
  by (simp add: client0_def LyricClient_init_def home_def cabin_def location_device_pairs_def)

text \<open>
  C6: two calls of \<^verbatim>\<open>devices()\<close> in succession on a wrapper yield the same multiset of
  pairs whenever the vendor client's locations and thermostats are the same at the second
  call as after the first. Nothing is cached: the second call lists what the vendor
  client holds then.
\<close>

theorem devices_twice_same_multiset:
  assumes "list_devices w = (xs, w1)"
    and "locations (lyric w2) = locations (lyric w1)"
    and "list_devices w2 = (ys, w3)"
  shows "mset xs = mset ys \<and> ys = location_device_pairs (locations (lyric w2))"
  using assms by (auto simp: list_devices_eq)

theorem devices_twice_same_multiset_witness:
  "list_devices client0 = ([(home, t1), (home, t2), (cabin, t3), (cabin, t1), (cabin, t2)], client0)
   \<and> mset (fst (list_devices client0)) = mset (fst (list_devices (snd (list_devices client0))))"
proof -
  have a: "list_devices client0 = (fst (list_devices client0), snd (list_devices client0))"
    by simp
  have b: "list_devices (snd (list_devices client0))
           = (fst (list_devices (snd (list_devices client0))),
              snd (list_devices (snd (list_devices client0))))"
    by simp
  have c: "locations (lyric (snd (list_devices client0)))
           = locations (lyric (snd (list_devices client0)))"
    by simp
  have e: "list_devices client0
           = ([(home, t1), (home, t2), (cabin, t3), (cabin, t1), (cabin, t2)], client0)"
    by (simp add: list_devices_eq location_device_pairs_def client0_def LyricClient_init_def
        home_def cabin_def)
  from devices_twice_same_multiset [OF a c b] e show ?thesis by simp
qed

text \<open>
  C10: \<^verbatim>\<open>devices()\<close> is read-only. Creating the generator, any single \<^verbatim>\<open>next\<close> and the
  whole enumeration leave the wrapper as it was: the vendor client it holds (with the
  locations and thermostats inside it) and its list of location names are the same
  before and after.
\<close>

theorem devices_read_only:
  "snd (list_devices w) = w
   \<and> lyric (snd (list_devices w)) = lyric w
   \<and> p_location (snd (list_devices w)) = p_location w
   \<and> snd (devices w) = w
   \<and> snd (devices_next g w) = w
   \<and> snd (devices_list g w) = w"
proof -
  have "snd (devices_list g w) = w" for g
  proof (induction g w rule: devices_list.induct)
    case (1 g self)
    obtain r g' where n: "devices_next g self = ((r, g'), self)"
      using devices_next_self [of g self] by (metis prod.collapse)
    show ?case
    proof (cases r)
      case None
      with n show ?thesis by (simp add: devices_list.simps [of g])
    next
      case (Some p)
      with n "1.IH" [of "(Some p, g')" self "Some p" g' p] show ?thesis
        by (auto simp: devices_list.simps [of g] split: prod.splits)
    qed
  qed
  then show ?thesis
    by (simp add: list_devices_def devices_def devices_next_self)
qed

theorem devices_read_only_witness:
  "snd (list_devices client0) = client0
   \<and> p_location (snd (list_devices client0)) = [''Home'', ''Cabin'']
   \<and> snd (devices_next Created client0) = client0"
  using devices_read_only [of client0 Created]
  by (simp add: client0_def LyricClient_init_def home_def cabin_def)

section \<open>Integration setup\<close>

text \<open>
  C5: when the global configuration has no key for the integration domain, setup returns
  success, registers no OAuth implementation, and the shared state of the domain is an
  empty mapping afterwards.
\<close>

theorem async_setup_without_domain_key:
  assumes "config (DOMAIN k) = None"
  shows "fst (async_setup k hass config) = Inr True
         \<and> implementations (snd (async_setup k hass config)) = implementations hass
         \<and> data (snd (async_setup k hass config)) (DOMAIN k) = Some Map.empty
         \<and> snd (async_setup k hass config) = hass\<lparr>data := (data hass)(DOMAIN k \<mapsto> Map.empty)\<rparr>"
  using assms by (simp add: async_setup_def)

theorem async_setup_without_domain_key_witness:
  "[''sensor'' \<mapsto> Map.empty] (DOMAIN k0) = None
   \<and> fst (async_setup k0 hass0 [''sensor'' \<mapsto> Map.empty]) = Inr True
   \<and> implementations (snd (async_setup k0 hass0 [''sensor'' \<mapsto> Map.empty])) = []
   \<and> data (snd (async_setup k0 hass0 [''sensor'' \<mapsto> Map.empty])) ''lyric'' = Some Map.empty"
proof -
  have h: "[''sensor'' \<mapsto> Map.empty] (DOMAIN k0) = None"
    by (simp add: k0_def)
  from async_setup_without_domain_key [of "[''sensor'' \<mapsto> Map.empty]" k0 hass0] h
  show ?thesis
    by (simp add: k0_def hass0_def)
qed

section \<open>Config-entry setup\<close>

text \<open>Scheduling the forwarded setups appends them and leaves the shared state alone.\<close>

lemma scheduled_forward_setups:
  "scheduled (foldl (\<lambda>s c. async_create_task s (async_forward_entry_setup e c)) s cs)
     = scheduled s @ map (async_forward_entry_setup e) cs"
  by (induction cs arbitrary: s) (simp_all add: async_create_task_def)

lemma data_forward_setups:
  "data (foldl (\<lambda>s c. async_create_task s (async_forward_entry_setup e c)) s cs) = data s"
  by (induction cs arbitrary: s) (simp_all add: async_create_task_def)

lemma async_setup_entry_success:
  assumes "async_setup_entry k h hass entry = (Inr b, hass', e')"
  shows "scheduled hass' = scheduled hass @ map (async_forward_entry_setup e') LYRIC_COMPONENTS"
    and "data hass' (DOMAIN k) \<noteq> None"
  using assms
  by (auto simp: async_setup_entry_def Let_def scheduled_forward_setups data_forward_setups
      split: sum.splits option.splits if_splits)

text \<open>
  C3: for a config entry whose data has no \<^verbatim>\<open>auth_implementation\<close>, the entry's data after
  setup holds that marker, equal to the integration domain, and every other field as it
  was. This is so however setup ends: the backfill comes before anything that can raise.
\<close>

theorem async_setup_entry_backfills_implementation:
  assumes "entry_data entry ''auth_implementation'' = None"
  shows "entry_data (snd (snd (async_setup_entry k h hass entry)))
           = (entry_data entry)(''auth_implementation'' \<mapsto> Str (DOMAIN k))
         \<and> entry_data (snd (snd (async_setup_entry k h hass entry))) ''auth_implementation''
           = Some (Str (DOMAIN k))
         \<and> (\<forall>f. f \<noteq> ''auth_implementation'' \<longrightarrow>
              entry_data (snd (snd (async_setup_entry k h hass entry))) f = entry_data entry f)"
  using assms
  by (simp add: async_setup_entry_def async_update_entry_def Let_def
      split: sum.splits option.splits)

theorem async_setup_entry_backfills_implementation_witness:
  "entry_data entry_a ''auth_implementation'' = None
   \<and> fst (async_setup_entry k0 h0 hass0 entry_a) = Inr True
   \<and> entry_data (snd (snd (async_setup_entry k0 h0 hass0 entry_a))) ''auth_implementation''
       = Some (Str ''lyric'')
   \<and> entry_data (snd (snd (async_setup_entry k0 h0 hass0 entry_a))) ''token''
       = Some (Dict [(''access_token'', Str ''x'')])"
proof -
  have a: "entry_data entry_a ''auth_implementation'' = None"
    by (simp add: entry_a_def)
  have r: "fst (async_setup_entry k0 h0 hass0 entry_a) = Inr True"
    by (simp add: async_setup_entry_def async_update_entry_def Let_def entry_a_def k0_def h0_def)
  from async_setup_entry_backfills_implementation [OF a, of k0 h0 hass0] a r show ?thesis
    by (simp add: k0_def entry_a_def)
qed

section \<open>Config-entry unload\<close>

text \<open>The join returns exactly when none of the awaited coroutines raises.\<close>

lemma gather_Inr_iff:
  "(\<exists>rs. gather run cs = Inr rs) \<longleftrightarrow> (\<forall>c \<in> set cs. \<not> isl (run c))"
  by (induction cs) (auto split: sum.splits)

lemma gather_unloads_fail:
  assumes "\<exists>c \<in> set LYRIC_COMPONENTS. isl (run (async_forward_entry_unload entry c))"
  shows "isl (gather run (map (async_forward_entry_unload entry) LYRIC_COMPONENTS))"
proof -
  from assms
  have "\<not> (\<forall>c \<in> set (map (async_forward_entry_unload entry) LYRIC_COMPONENTS). \<not> isl (run c))"
    by auto
  then have "\<not> (\<exists>rs. gather run (map (async_forward_entry_unload entry) LYRIC_COMPONENTS) = Inr rs)"
    using gather_Inr_iff [of run "map (async_forward_entry_unload entry) LYRIC_COMPONENTS"]
    by blast
  then show ?thesis
    by (cases "gather run (map (async_forward_entry_unload entry) LYRIC_COMPONENTS)") auto
qed

lemma gather_unloads_succeed:
  assumes "\<forall>c \<in> set LYRIC_COMPONENTS. \<not> isl (run (async_forward_entry_unload entry c))"
  shows "\<exists>rs. gather run (map (async_forward_entry_unload entry) LYRIC_COMPONENTS) = Inr rs"
proof -
  from assms
  have "\<forall>c \<in> set (map (async_forward_entry_unload entry) LYRIC_COMPONENTS). \<not> isl (run c)"
    by auto
  then show ?thesis
    using gather_Inr_iff [of run "map (async_forward_entry_unload entry) LYRIC_COMPONENTS"]
    by blast
qed

text \<open>What unload does once the join has returned.\<close>

lemma async_unload_entry_joined:
  assumes "\<forall>c \<in> set LYRIC_COMPONENTS. \<not> isl (await h (async_forward_entry_unload entry c))"
  shows "async_unload_entry k h hass entry =
    (case data hass (DOMAIN k) of
       None \<Rightarrow>
         (Inl (KeyError (DOMAIN k)),
          hass\<lparr>scheduled := scheduled hass @ map (async_forward_entry_unload entry) LYRIC_COMPONENTS,
               services := services hass - {(DOMAIN k, SERVICE_HOLD_TIME k)}\<rparr>)
     | Some d \<Rightarrow>
         (Inr True,
          hass\<lparr>scheduled := scheduled hass @ map (async_forward_entry_unload entry) LYRIC_COMPONENTS,
               services := services hass - {(DOMAIN k, SERVICE_HOLD_TIME k)},
               data := (data hass)(DOMAIN k := None)\<rparr>))"
proof -
  from gather_unloads_succeed [OF assms]
  obtain rs where "gather (await h) (map (async_forward_entry_unload entry) LYRIC_COMPONENTS) = Inr rs"
    by blast
  then show ?thesis
    by (simp add: async_unload_entry_def services_async_remove_def Let_def split: option.splits)
qed

text \<open>
  The values that the forwarded unloads return are dropped: two hosts on which no unload
  raises give the same unload, whatever booleans the unloads return.
\<close>

lemma async_unload_entry_discards_results:
  assumes "\<forall>c \<in> set LYRIC_COMPONENTS. \<not> isl (await h (async_forward_entry_unload entry c))"
    and "\<forall>c \<in> set LYRIC_COMPONENTS. \<not> isl (await h' (async_forward_entry_unload entry c))"
  shows "async_unload_entry k h hass entry = async_unload_entry k h' hass entry"
  by (simp add: async_unload_entry_joined [OF assms(1)] async_unload_entry_joined [OF assms(2)])

text \<open>
  C1, as stated, fails: a forwarded unload that fails without raising, by returning
  \<open>False\<close>, does not fail the unload of the entry. With the sensor platform
  returning \<open>False\<close>, unload removes the hold-time service and the entry of the
  domain from the shared state and reports success: the values that the join returns
  are never looked at.
\<close>

theorem async_unload_entry_ignores_returned_failure_counterexample:
  "await h_sensor_returns_false (async_forward_entry_unload entry_a ''climate'') = Inr True
   \<and> await h_sensor_returns_false (async_forward_entry_unload entry_a ''sensor'') = Inr False
   \<and> data hass_loaded ''lyric'' = Some [''lyric_client'' \<mapsto> client0]
   \<and> fst (async_unload_entry k0 h_sensor_returns_false hass_loaded entry_a) = Inr True
   \<and> data (snd (async_unload_entry k0 h_sensor_returns_false hass_loaded entry_a)) ''lyric''
       = None
   \<and> services (snd (async_unload_entry k0 h_sensor_returns_false hass_loaded entry_a)) = {}"
  by (simp add: async_unload_entry_def services_async_remove_def LYRIC_COMPONENTS_def Let_def
      h_sensor_returns_false_def h0_def hass_loaded_def hass0_def k0_def)

text \<open>
  C1, amended: when at least one of the two forwarded sub-platform unloads raises an
  exception, the unload of the entry fails with an exception too, it does not report
  success, and the shared state is as before, the entry of the integration domain
  included; the service registry is as before as well.
\<close>

theorem async_unload_entry_fails_when_a_platform_fails:
  assumes "\<exists>c \<in> set LYRIC_COMPONENTS. isl (await h (async_forward_entry_unload entry c))"
  shows "isl (fst (async_unload_entry k h hass entry))
         \<and> fst (async_unload_entry k h hass entry) \<noteq> Inr True
         \<and> data (snd (async_unload_entry k h hass entry)) = data hass
         \<and> services (snd (async_unload_entry k h hass entry)) = services hass"
proof -
  from gather_unloads_fail [OF assms]
  obtain x where "gather (await h) (map (async_forward_entry_unload entry) LYRIC_COMPONENTS) = Inl x"
    by (auto simp: isl_def)
  then show ?thesis
    by (simp add: async_unload_entry_def Let_def)
qed

theorem async_unload_entry_fails_when_a_platform_fails_witness:
  "await h_sensor_fails (async_forward_entry_unload entry_a ''climate'') = Inr True
   \<and> await h_sensor_fails (async_forward_entry_unload entry_a ''sensor'')
       = Inl (Raised ''sensor unload'')
   \<and> fst (async_unload_entry k0 h_sensor_fails hass_loaded entry_a)
       = Inl (Raised ''sensor unload'')
   \<and> data (snd (async_unload_entry k0 h_sensor_fails hass_loaded entry_a)) ''lyric''
       = Some [''lyric_client'' \<mapsto> client0]
   \<and> services (snd (async_unload_entry k0 h_sensor_fails hass_loaded entry_a))
       = {(''lyric'', ''set_hold_time'')}"
proof -
  have f: "\<exists>c \<in> set LYRIC_COMPONENTS.
             isl (await h_sensor_fails (async_forward_entry_unload entry_a c))"
    by (simp add: LYRIC_COMPONENTS_def h_sensor_fails_def)
  have r: "fst (async_unload_entry k0 h_sensor_fails hass_loaded entry_a)
           = Inl (Raised ''sensor unload'')"
    by (simp add: async_unload_entry_def LYRIC_COMPONENTS_def h_sensor_fails_def Let_def)
  from async_unload_entry_fails_when_a_platform_fails [OF f, of k0 hass_loaded] r show ?thesis
    by (simp add: h_sensor_fails_def hass_loaded_def hass0_def)
qed

text \<open>The run with two entries, step by step.\<close>

lemma after_a_eq:
  "after_a =
     (Inr True,
      \<lparr>data = [''lyric'' \<mapsto> [''lyric_client'' \<mapsto> client0]], implementations = [],
       services = {(''lyric'', ''set_hold_time'')},
       scheduled =
         [async_forward_entry_setup
            (entry_a\<lparr>entry_data := (entry_data entry_a)(''auth_implementation'' \<mapsto> Str ''lyric'')\<rparr>)
            ''climate'',
          async_forward_entry_setup
            (entry_a\<lparr>entry_data := (entry_data entry_a)(''auth_implementation'' \<mapsto> Str ''lyric'')\<rparr>)
            ''sensor'']\<rparr>,
      entry_a\<lparr>entry_data := (entry_data entry_a)(''auth_implementation'' \<mapsto> Str ''lyric'')\<rparr>)"
  by (simp add: after_a_def async_setup_entry_def async_setup_def async_update_entry_def
      async_create_task_def LYRIC_COMPONENTS_def Let_def k0_def h0_def hass0_def entry_a_def
      client0_def LocalOAuth2Implementation_init_def)

lemma after_b_eq:
  "fst after_b = Inr True
   \<and> data (fst (snd after_b)) = [''lyric'' \<mapsto> [''lyric_client'' \<mapsto> client0]]
   \<and> services (fst (snd after_b)) = {(''lyric'', ''set_hold_time'')}
   \<and> snd (snd after_b)
       = entry_b\<lparr>entry_data := (entry_data entry_b)(''auth_implementation'' \<mapsto> Str ''lyric'')\<rparr>"
  by (simp add: after_b_def after_a_eq)
     (simp add: async_setup_entry_def async_update_entry_def
      async_create_task_def LYRIC_COMPONENTS_def Let_def k0_def h0_def entry_b_def
      client0_def LocalOAuth2Implementation_init_def)

lemma after_unload_a_eq:
  "fst after_unload_a = Inr True \<and> data (snd after_unload_a) = Map.empty"
proof -
  have "\<forall>c \<in> set LYRIC_COMPONENTS.
          \<not> isl (await h0 (async_forward_entry_unload (snd (snd after_a)) c))"
    by (simp add: h0_def)
  from async_unload_entry_joined [OF this, of k0 "fst (snd after_b)"] show ?thesis
    by (simp add: after_unload_a_def after_b_eq k0_def)
qed

text \<open>
  C4, as stated, fails: with two entries set up and the first one unloaded, both
  forwarded unloads of the second succeed and yet its unload raises \<open>KeyError\<close>, since
  the first unload has removed the entry of the domain from the shared state.
\<close>

theorem async_unload_entry_second_entry_counterexample:
  "fst after_a = Inr True \<and> fst after_b = Inr True \<and> fst after_unload_a = Inr True
   \<and> await h0 (async_forward_entry_unload (snd (snd after_b)) ''climate'') = Inr True
   \<and> await h0 (async_forward_entry_unload (snd (snd after_b)) ''sensor'') = Inr True
   \<and> fst (async_unload_entry k0 h0 (snd after_unload_a) (snd (snd after_b)))
       = Inl (KeyError ''lyric'')
   \<and> fst (async_unload_entry k0 h0 (snd after_unload_a) (snd (snd after_b))) \<noteq> Inr True"
proof -
  have "\<forall>c \<in> set LYRIC_COMPONENTS.
          \<not> isl (await h0 (async_forward_entry_unload (snd (snd after_b)) c))"
    by (simp add: h0_def)
  from async_unload_entry_joined [OF this, of k0 "snd after_unload_a"]
  have "fst (async_unload_entry k0 h0 (snd after_unload_a) (snd (snd after_b)))
        = Inl (KeyError ''lyric'')"
    by (simp add: after_unload_a_eq k0_def)
  then show ?thesis
    by (simp add: after_a_eq after_b_eq after_unload_a_eq h0_def)
qed

text \<open>
  C4, amended: when both forwarded sub-platform unloads succeed and the shared state holds
  an entry for the integration domain, the hold-time service registration is removed,
  the entry of the domain is removed from the shared state, and unload reports success.
\<close>

theorem async_unload_entry_succeeds:
  assumes "\<forall>c \<in> set LYRIC_COMPONENTS. \<not> isl (await h (async_forward_entry_unload entry c))"
    and "data hass (DOMAIN k) \<noteq> None"
  shows "fst (async_unload_entry k h hass entry) = Inr True
         \<and> (DOMAIN k, SERVICE_HOLD_TIME k) \<notin> services (snd (async_unload_entry k h hass entry))
         \<and> services (snd (async_unload_entry k h hass entry))
             = services hass - {(DOMAIN k, SERVICE_HOLD_TIME k)}
         \<and> data (snd (async_unload_entry k h hass entry)) (DOMAIN k) = None
         \<and> data (snd (async_unload_entry k h hass entry)) = (data hass)(DOMAIN k := None)"
  using assms(2) by (auto simp: async_unload_entry_joined [OF assms(1)])

theorem async_unload_entry_succeeds_witness:
  "await h0 (async_forward_entry_unload entry_a ''climate'') = Inr True
   \<and> await h0 (async_forward_entry_unload entry_a ''sensor'') = Inr True
   \<and> data hass_loaded (DOMAIN k0) = Some [''lyric_client'' \<mapsto> client0]
   \<and> fst (async_unload_entry k0 h0 hass_loaded entry_a) = Inr True
   \<and> services (snd (async_unload_entry k0 h0 hass_loaded entry_a)) = {}
   \<and> data (snd (async_unload_entry k0 h0 hass_loaded entry_a)) ''lyric'' = None"
proof -
  have a: "\<forall>c \<in> set LYRIC_COMPONENTS. \<not> isl (await h0 (async_forward_entry_unload entry_a c))"
    by (simp add: h0_def)
  have b: "data hass_loaded (DOMAIN k0) \<noteq> None"
    by (simp add: hass_loaded_def k0_def)
  from async_unload_entry_succeeds [OF a b] show ?thesis
    by (simp add: h0_def hass_loaded_def hass0_def k0_def)
qed

text \<open>
  C9: unload presupposes the key of the integration domain in the shared state. Once the
  join of the sub-platform unloads has succeeded, unload raises \<open>KeyError\<close> on removing
  the entry of the domain if the key is absent, and it reports success exactly if the
  key is present. Setup establishes the key: it is present after integration setup and
  after every entry setup that succeeds.
\<close>

theorem async_unload_entry_needs_domain_key:
  assumes "\<forall>c \<in> set LYRIC_COMPONENTS. \<not> isl (await h (async_forward_entry_unload entry c))"
  shows "(data hass (DOMAIN k) = None \<longrightarrow>
            fst (async_unload_entry k h hass entry) = Inl (KeyError (DOMAIN k)))
         \<and> (fst (async_unload_entry k h hass entry) = Inr True \<longleftrightarrow> data hass (DOMAIN k) \<noteq> None)
         \<and> data (snd (async_setup k hass config)) (DOMAIN k) \<noteq> None
         \<and> (fst (async_setup_entry k h hass entry') = Inr True \<longrightarrow>
              data (fst (snd (async_setup_entry k h hass entry'))) (DOMAIN k) \<noteq> None)"
proof -
  have a: "data (snd (async_setup k hass config)) (DOMAIN k) \<noteq> None"
    by (simp add: async_setup_def async_register_implementation_def Let_def split: option.splits)
  have b: "fst (async_setup_entry k h hass entry') = Inr True \<longrightarrow>
              data (fst (snd (async_setup_entry k h hass entry'))) (DOMAIN k) \<noteq> None"
    using async_setup_entry_success(2) [of k h hass entry' True
        "fst (snd (async_setup_entry k h hass entry'))"
        "snd (snd (async_setup_entry k h hass entry'))"]
    by (auto dest: sym [of _ "Inr True"])
  from a b show ?thesis
    by (auto simp: async_unload_entry_joined [OF assms] split: option.splits)
qed

theorem async_unload_entry_needs_domain_key_witness:
  "await h0 (async_forward_entry_unload entry_a ''climate'') = Inr True
   \<and> await h0 (async_forward_entry_unload entry_a ''sensor'') = Inr True
   \<and> data hass0 (DOMAIN k0) = None
   \<and> fst (async_unload_entry k0 h0 hass0 entry_a) = Inl (KeyError ''lyric'')
   \<and> data (snd (async_setup k0 hass0 Map.empty)) ''lyric'' = Some Map.empty
   \<and> fst (async_unload_entry k0 h0 (snd (async_setup k0 hass0 Map.empty)) entry_a) = Inr True"
proof -
  have a: "\<forall>c \<in> set LYRIC_COMPONENTS. \<not> isl (await h0 (async_forward_entry_unload entry_a c))"
    by (simp add: h0_def)
  have b: "data hass0 (DOMAIN k0) = None"
    by (simp add: hass0_def)
  have c: "data (snd (async_setup k0 hass0 Map.empty)) ''lyric'' = Some Map.empty"
    by (simp add: async_setup_def k0_def)
  from async_unload_entry_needs_domain_key [OF a, of hass0 k0]
    async_unload_entry_needs_domain_key [OF a, of "snd (async_setup k0 hass0 Map.empty)" k0]
    b c
  show ?thesis
    by (simp add: h0_def k0_def)
qed

section \<open>The forwarded sub-platforms\<close>

text \<open>
  C8: entry setup (when it succeeds) and entry unload each forward to exactly two
  sub-platforms, \<^verbatim>\<open>climate\<close> and \<^verbatim>\<open>sensor\<close>: these are the coroutines each hands to the
  event loop, and the set of platform names is the same for both.
\<close>

theorem setup_and_unload_forward_climate_and_sensor:
  "(fst (async_setup_entry k h hass entry) = Inr True \<longrightarrow>
      scheduled (fst (snd (async_setup_entry k h hass entry)))
        = scheduled hass
          @ [async_forward_entry_setup (snd (snd (async_setup_entry k h hass entry))) ''climate'',
             async_forward_entry_setup (snd (snd (async_setup_entry k h hass entry))) ''sensor'']
      \<and> set (map component (drop (length (scheduled hass))
                (scheduled (fst (snd (async_setup_entry k h hass entry))))))
        = set (map component (drop (length (scheduled hass'))
                (scheduled (snd (async_unload_entry k h hass' entry'))))))
   \<and> scheduled (snd (async_unload_entry k h hass' entry'))
       = scheduled hass'
         @ [async_forward_entry_unload entry' ''climate'',
            async_forward_entry_unload entry' ''sensor'']
   \<and> set (map component (drop (length (scheduled hass'))
             (scheduled (snd (async_unload_entry k h hass' entry')))))
       = {''climate'', ''sensor''}
   \<and> set LYRIC_COMPONENTS = {''climate'', ''sensor''}
   \<and> card (set LYRIC_COMPONENTS) = 2"
proof -
  have u: "scheduled (snd (async_unload_entry k h hass' entry'))
       = scheduled hass'
         @ [async_forward_entry_unload entry' ''climate'',
            async_forward_entry_unload entry' ''sensor'']"
    by (simp add: async_unload_entry_def services_async_remove_def LYRIC_COMPONENTS_def Let_def
        split: sum.splits option.splits)
  have s: "fst (async_setup_entry k h hass entry) = Inr True \<longrightarrow>
      scheduled (fst (snd (async_setup_entry k h hass entry)))
        = scheduled hass
          @ [async_forward_entry_setup (snd (snd (async_setup_entry k h hass entry))) ''climate'',
             async_forward_entry_setup (snd (snd (async_setup_entry k h hass entry))) ''sensor'']"
    using async_setup_entry_success(1) [of k h hass entry True
        "fst (snd (async_setup_entry k h hass entry))"
        "snd (snd (async_setup_entry k h hass entry))"]
    by (auto simp: LYRIC_COMPONENTS_def dest: sym [of _ "Inr True"])
  have c: "card (set LYRIC_COMPONENTS) = 2"
    by (simp add: LYRIC_COMPONENTS_def)
  from s show ?thesis
    by (auto simp: u c) (simp_all add: LYRIC_COMPONENTS_def)
qed

theorem setup_and_unload_forward_climate_and_sensor_witness:
  "fst (async_setup_entry k0 h0 hass0 entry_a) = Inr True
   \<and> map component (scheduled (fst (snd (async_setup_entry k0 h0 hass0 entry_a))))
       = [''climate'', ''sensor'']
   \<and> map component (scheduled (snd (async_unload_entry k0 h0 hass0 entry_a)))
       = [''climate'', ''sensor'']"
proof -
  have r: "fst (async_setup_entry k0 h0 hass0 entry_a) = Inr True"
    by (simp add: async_setup_entry_def async_update_entry_def Let_def entry_a_def k0_def h0_def)
  have e: "scheduled hass0 = []"
    by (simp add: hass0_def)
  from setup_and_unload_forward_climate_and_sensor [of k0 h0 hass0 entry_a hass0 entry_a] r e
  show ?thesis by simp
qed

section \<open>The entity base class\<close>

text \<open>
  C7: an entity whose class does not override the update hook raises
  \<open>NotImplementedError\<close> on its first update and is still unavailable afterwards; the
  same holds at every later update, which leaves the entity as it was. With any hook,
  update sets the flag exactly when the hook returns; when the hook raises, the flag is
  as the hook left it.
\<close>

theorem async_update_default_raises:
  "async_update p_lyric_update (LyricEntity_init dev loc uid nm ic dc)
     = (Inl NotImplementedError, LyricEntity_init dev loc uid nm ic dc)
   \<and> \<not> p_available (LyricEntity_init dev loc uid nm ic dc)
   \<and> \<not> available (snd (async_update p_lyric_update (LyricEntity_init dev loc uid nm ic dc)))
   \<and> async_update p_lyric_update self = (Inl NotImplementedError, self)
   \<and> p_available (snd (async_update hook self))
       = (case hook self of (Inl x, self') \<Rightarrow> p_available self' | (Inr u, self') \<Rightarrow> True)"
  by (simp add: async_update_def p_lyric_update_def LyricEntity_init_def available_def
      split: prod.splits sum.splits)

theorem async_update_default_raises_witness:
  "fst (async_update p_lyric_update entity0) = Inl NotImplementedError
   \<and> available (snd (async_update p_lyric_update entity0)) = False
   \<and> fst (async_update hook_ok entity0) = Inr ()
   \<and> available (snd (async_update hook_ok entity0)) = True"
  using async_update_default_raises [of t1 home "''00D02D000001_temperature''"
      "''Hall Temperature''" "''mdi:thermometer''" "''temperature''" entity0 hook_ok]
  by (simp add: entity0_def hook_ok_def available_def async_update_def)

end
